theory Spec2Isabelle
  imports Main "HOL-Library.Word"
begin

unbundle bit_operations_syntax

section \<open>Machine types and the video memory\<close>

text \<open>
  The Go types of \<open>tiles.go\<close>: \<open>uint8\<close>, \<open>uint16\<close> and \<open>uintptr\<close> (32 bits on the
  Game Boy Advance). Arithmetic on them wraps, shifts drop the bits that leave the
  word.
\<close>

type_synonym uint8 = "8 word"
type_synonym uint16 = "16 word"
type_synonym uintptr = "32 word"

text \<open>\<open>type Layer uint8\<close> with its four named constants.\<close>

type_synonym Layer = uint8

definition Layer0 :: Layer where "Layer0 = 0"
definition Layer1 :: Layer where "Layer1 = 1"
definition Layer2 :: Layer where "Layer2 = 2"
definition Layer3 :: Layer where "Layer3 = 3"

definition memPAL :: uintptr where "memPAL = 0x05000000"
definition memVRAM :: uintptr where "memVRAM = 0x06000000"

text \<open>
  The memory-mapped registers of package \<open>device/gba\<close> that \<open>tiles.go\<close> writes:
  \<open>gba.DISP.DISPCNT\<close> and, for each background, \<open>gba.BGn.HOFS\<close> and \<open>gba.BGn.VOFS\<close>.
\<close>

datatype ioreg =
    DISPCNT
  | BG0_HOFS | BG0_VOFS
  | BG1_HOFS | BG1_VOFS
  | BG2_HOFS | BG2_VOFS
  | BG3_HOFS | BG3_VOFS

text \<open>
  Every store of the package is a volatile 16-bit store, either \<open>Register16.Set\<close> on a
  named register or \<open>mem16(addr).Set\<close> on palette RAM or VRAM. The machine state keeps
  the registers, the byte-addressed memory and the trace of the stores performed, in
  program order.
\<close>

datatype store = RegStore ioreg uint16 | MemStore uintptr uint16

record machine =
  ioregs :: "ioreg \<Rightarrow> uint16"
  memory :: "uintptr \<Rightarrow> uint8"
  trace :: "store list"

definition machine0 :: machine where
  "machine0 = \<lparr>ioregs = (\<lambda>_. 0), memory = (\<lambda>_. 0), trace = []\<rparr>"

text \<open>\<open>reg.Set(v)\<close> on a named register.\<close>

definition reg_Set :: "ioreg \<Rightarrow> uint16 \<Rightarrow> machine \<Rightarrow> machine" where
  "reg_Set r v s = s\<lparr>ioregs := (ioregs s)(r := v), trace := trace s @ [RegStore r v]\<rparr>"

text \<open>
  \<open>mem16(addr).Set(v)\<close>: a little-endian halfword store, low byte at \<open>addr\<close>, high
  byte at \<open>addr + 1\<close>.
\<close>

definition mem16_Set :: "uintptr \<Rightarrow> uint16 \<Rightarrow> machine \<Rightarrow> machine" where
  "mem16_Set addr v s =
     s\<lparr>memory := (memory s)(addr := ucast v, addr + 1 := ucast (drop_bit 8 v)),
       trace := trace s @ [MemStore addr v]\<rparr>"

text \<open>Reading a halfword back, as the rendering hardware does.\<close>

definition read16 :: "machine \<Rightarrow> uintptr \<Rightarrow> uint16" where
  "read16 s addr = ucast (memory s addr) OR push_bit 8 (ucast (memory s (addr + 1)))"

definition read_bytes :: "machine \<Rightarrow> uintptr \<Rightarrow> nat \<Rightarrow> uint8 list" where
  "read_bytes s base n = map (\<lambda>i. memory s (base + of_nat i)) [0..<n]"

section \<open>tiles.go\<close>

text \<open>
  \<open>ConfigureLayers(layers ...Layer)\<close>: the loop ors \<open>1 << (8 + uint(l))\<close> into a
  \<open>uint16\<close> that starts at 0; one store to DISPCNT follows.
\<close>

definition ConfigureLayers :: "Layer list \<Rightarrow> machine \<Rightarrow> machine" where
  "ConfigureLayers layers s =
     reg_Set DISPCNT (fold (\<lambda>l bits. bits OR push_bit (8 + unat l) 1) layers 0) s"

text \<open>\<open>SetScroll(layer, x, y)\<close>: a switch without default.\<close>

definition SetScroll :: "Layer \<Rightarrow> uint16 \<Rightarrow> uint16 \<Rightarrow> machine \<Rightarrow> machine" where
  "SetScroll layer x y s =
     (let x' = x AND 0x1FF; y' = y AND 0x1FF in
      if layer = Layer0 then reg_Set BG0_VOFS y' (reg_Set BG0_HOFS x' s)
      else if layer = Layer1 then reg_Set BG1_VOFS y' (reg_Set BG1_HOFS x' s)
      else if layer = Layer2 then reg_Set BG2_VOFS y' (reg_Set BG2_HOFS x' s)
      else if layer = Layer3 then reg_Set BG3_VOFS y' (reg_Set BG3_HOFS x' s)
      else s)"

definition RGB :: "uint8 \<Rightarrow> uint8 \<Rightarrow> uint8 \<Rightarrow> uint16" where
  "RGB r g b = ucast r OR push_bit 5 (ucast g) OR push_bit 10 (ucast b)"

definition SetPaletteColor :: "uint8 \<Rightarrow> uint8 \<Rightarrow> uint16 \<Rightarrow> machine \<Rightarrow> machine" where
  "SetPaletteColor palette index color s =
     (let addr = memPAL + ucast palette * 32 + ucast index * 2 in
      mem16_Set addr color s)"

text \<open>
  \<open>DefineTile4bpp\<close> and \<open>DefineTile8bpp\<close>: \<open>pixels\<close> is a Go array of 32 (64) bytes;
  the loop counter runs over \<open>0..15\<close> (\<open>0..31\<close>).
\<close>

definition tile_halfword :: "uint8 list \<Rightarrow> nat \<Rightarrow> uint16" where
  "tile_halfword pixels i = ucast (pixels ! (i * 2)) OR push_bit 8 (ucast (pixels ! (i * 2 + 1)))"

definition DefineTile4bpp :: "uint8 \<Rightarrow> uint16 \<Rightarrow> uint8 list \<Rightarrow> machine \<Rightarrow> machine" where
  "DefineTile4bpp charBlock tileIndex pixels s =
     (let base = memVRAM + ucast charBlock * 16384 + ucast tileIndex * 32 in
      fold (\<lambda>i. mem16_Set (base + of_nat i * 2) (tile_halfword pixels i)) [0..<16] s)"

definition DefineTile8bpp :: "uint8 \<Rightarrow> uint16 \<Rightarrow> uint8 list \<Rightarrow> machine \<Rightarrow> machine" where
  "DefineTile8bpp charBlock tileIndex pixels s =
     (let base = memVRAM + ucast charBlock * 16384 + ucast tileIndex * 64 in
      fold (\<lambda>i. mem16_Set (base + of_nat i * 2) (tile_halfword pixels i)) [0..<32] s)"

text \<open>\<open>SetTile\<close>: the address and the entry, then one store. Nothing is checked.\<close>

definition tile_addr :: "uint8 \<Rightarrow> uint8 \<Rightarrow> uint8 \<Rightarrow> uintptr" where
  "tile_addr screenBlock x y = memVRAM + ucast screenBlock * 2048 + (ucast y * 32 + ucast x) * 2"

definition tile_entry :: "uint16 \<Rightarrow> uint8 \<Rightarrow> bool \<Rightarrow> bool \<Rightarrow> uint16" where
  "tile_entry tileIndex palette flipH flipV =
     (let entry = tileIndex;
          entry = (if flipH then entry OR push_bit 10 1 else entry);
          entry = (if flipV then entry OR push_bit 11 1 else entry)
      in entry OR push_bit 12 (ucast palette))"

definition SetTile ::
  "uint8 \<Rightarrow> uint8 \<Rightarrow> uint8 \<Rightarrow> uint16 \<Rightarrow> uint8 \<Rightarrow> bool \<Rightarrow> bool \<Rightarrow> machine \<Rightarrow> machine" where
  "SetTile screenBlock x y tileIndex palette flipH flipV s =
     mem16_Set (tile_addr screenBlock x y) (tile_entry tileIndex palette flipH flipV) s"

text \<open>
  \<open>FillTiled\<close>: two nested loops with \<open>uint8\<close> counters \<open>row\<close> and \<open>col\<close>; the
  coordinates \<open>x+col\<close> and \<open>y+row\<close> are \<open>uint8\<close> sums. A counter below its bound is
  below 255, so the increment does not wrap and each loop ends.
\<close>

function fill_cols ::
  "uint8 \<Rightarrow> uint8 \<Rightarrow> uint8 \<Rightarrow> uint8 \<Rightarrow> uint16 \<Rightarrow> uint8 \<Rightarrow> uint8 \<Rightarrow> uint8 \<Rightarrow> machine \<Rightarrow> machine" where
  "fill_cols screenBlock x y w tileIndex palette row col s =
     (if col < w
      then fill_cols screenBlock x y w tileIndex palette row (col + 1)
             (SetTile screenBlock (x + col) (y + row) tileIndex palette False False s)
      else s)"
  by pat_completeness auto
termination
proof (relation "measure (\<lambda>(screenBlock, x, y, w, tileIndex, palette, row, col, s). unat w - unat col)", goal_cases)
  case 1
  show ?case by simp
next
  case (2 screenBlock x y w tileIndex palette row col s)
  then have lt: "unat col < unat w" by (simp add: word_less_nat_alt)
  moreover have "unat w < 256" using unsigned_less[of w, where 'a=nat] by simp
  ultimately have "unat (col + 1) = unat col + 1" by (simp add: unat_word_ariths)
  then show ?case using lt by simp
qed

function fill_rows ::
  "uint8 \<Rightarrow> uint8 \<Rightarrow> uint8 \<Rightarrow> uint8 \<Rightarrow> uint8 \<Rightarrow> uint16 \<Rightarrow> uint8 \<Rightarrow> uint8 \<Rightarrow> machine \<Rightarrow> machine" where
  "fill_rows screenBlock x y w h tileIndex palette row s =
     (if row < h
      then fill_rows screenBlock x y w h tileIndex palette (row + 1)
             (fill_cols screenBlock x y w tileIndex palette row 0 s)
      else s)"
  by pat_completeness auto
termination
proof (relation "measure (\<lambda>(screenBlock, x, y, w, h, tileIndex, palette, row, s). unat h - unat row)", goal_cases)
  case 1
  show ?case by simp
next
  case (2 screenBlock x y w h tileIndex palette row s)
  then have lt: "unat row < unat h" by (simp add: word_less_nat_alt)
  moreover have "unat h < 256" using unsigned_less[of h, where 'a=nat] by simp
  ultimately have "unat (row + 1) = unat row + 1" by (simp add: unat_word_ariths)
  then show ?case using lt by simp
qed

declare fill_cols.simps [simp del] fill_rows.simps [simp del]

definition FillTiled ::
  "uint8 \<Rightarrow> uint8 \<Rightarrow> uint8 \<Rightarrow> uint8 \<Rightarrow> uint8 \<Rightarrow> uint16 \<Rightarrow> uint8 \<Rightarrow> machine \<Rightarrow> machine" where
  "FillTiled screenBlock x y w h tileIndex palette s =
     fill_rows screenBlock x y w h tileIndex palette 0 s"

section \<open>The glyph compositor of the keyboard example\<close>

text \<open>
  \<open>glyphQuarterTiles(rows [7]uint8) (tl, tr, bl, br [32]byte)\<close>. The function has one
  parameter, the glyph; the placement at key-relative pixel (5, 4) is written into its
  body. \<open>palLetter = 3\<close> is the palette index of the glyph pixels.
\<close>

definition palLetter :: uint8 where "palLetter = 3"

record quarters =
  top_left :: "uint8 list"
  top_right :: "uint8 list"
  bottom_left :: "uint8 list"
  bottom_right :: "uint8 list"

text \<open>The inner loop: the array \<open>g\<close> of the five pixels of one glyph row.\<close>

definition glyph_row_pixels :: "uint8 \<Rightarrow> uint8 list" where
  "glyph_row_pixels bits =
     map (\<lambda>i. if drop_bit (4 - i) bits AND 1 \<noteq> 0 then palLetter else 0) [0..<5]"

text \<open>The body of the outer loop, for glyph row \<open>gr\<close>.\<close>

definition glyph_row :: "uint8 list \<Rightarrow> nat \<Rightarrow> quarters \<Rightarrow> quarters" where
  "glyph_row rows gr q =
     (let bits = rows ! gr;
          g = glyph_row_pixels bits;
          tileRow = (if gr < 4 then 4 + gr else gr - 4);
          base = tileRow * 4
      in if gr < 4
         then q\<lparr>top_left := (top_left q)[base + 2 := 0 OR push_bit 4 (g ! 0),
                                          base + 3 := g ! 1 OR push_bit 4 (g ! 2)],
                top_right := (top_right q)[base + 0 := g ! 3 OR push_bit 4 (g ! 4)]\<rparr>
         else q\<lparr>bottom_left := (bottom_left q)[base + 2 := 0 OR push_bit 4 (g ! 0),
                                              base + 3 := g ! 1 OR push_bit 4 (g ! 2)],
                bottom_right := (bottom_right q)[base + 0 := g ! 3 OR push_bit 4 (g ! 4)]\<rparr>)"

definition glyphQuarterTiles :: "uint8 list \<Rightarrow> quarters" where
  "glyphQuarterTiles rows =
     fold (glyph_row rows) [0..<7]
       \<lparr>top_left = replicate 32 0, top_right = replicate 32 0,
        bottom_left = replicate 32 0, bottom_right = replicate 32 0\<rparr>"

text \<open>\<open>letterGlyphs[0]\<close>, the letter a.\<close>

definition letter_a :: "uint8 list" where
  "letter_a = [14, 17, 17, 31, 17, 17, 17]"

section \<open>Reading the formats\<close>

text \<open>
  The glyph bitmap: bit 4 of a row is the leftmost column, bit 0 the rightmost
  (the comment of \<open>letterGlyphs\<close>).
\<close>

definition glyph_bit :: "uint8 list \<Rightarrow> nat \<Rightarrow> nat \<Rightarrow> bool" where
  "glyph_bit rows r c = bit (rows ! r) (4 - c)"

definition fg :: "uint8 list \<Rightarrow> nat \<Rightarrow> nat \<Rightarrow> uint8" where
  "fg rows r c = (if glyph_bit rows r c then palLetter else 0)"

text \<open>
  The 4bpp tile format: byte \<open>py * 4 + px div 2\<close> holds pixel \<open>(px, py)\<close>, an even
  \<open>px\<close> in the low nibble and an odd one in the high nibble.
\<close>

definition lo_nibble :: "uint8 \<Rightarrow> uint8" where
  "lo_nibble byte = byte AND 0x0F"

definition hi_nibble :: "uint8 \<Rightarrow> uint8" where
  "hi_nibble byte = drop_bit 4 byte"

definition pixel4 :: "uint8 list \<Rightarrow> nat \<Rightarrow> nat \<Rightarrow> uint8" where
  "pixel4 tile px py =
     (let byte = tile ! (py * 4 + px div 2)
      in if even px then lo_nibble byte else hi_nibble byte)"

text \<open>The quadrant buffer of tile column \<open>tileCol\<close> and tile row \<open>tileRow\<close> of the 2x2 cell.\<close>

definition quadrant :: "quarters \<Rightarrow> nat \<Rightarrow> nat \<Rightarrow> uint8 list" where
  "quadrant q tileCol tileRow =
     (if tileRow = 0 then (if tileCol = 0 then top_left q else top_right q)
      else (if tileCol = 0 then bottom_left q else bottom_right q))"

text \<open>
  The compositing contract for an intra-cell offset \<open>(ox, oy)\<close>: each set glyph pixel
  \<open>(r, c)\<close> shows in the quadrant \<open>((ox+c) div 8, (oy+r) div 8)\<close> at
  \<open>((ox+c) mod 8, (oy+r) mod 8)\<close> with the foreground index, the other three quadrants
  are 0 at that position, and every nibble that is not 0 is the image of a set glyph
  pixel.
\<close>

definition composited_at :: "uint8 list \<Rightarrow> nat \<Rightarrow> nat \<Rightarrow> quarters \<Rightarrow> bool" where
  "composited_at rows ox oy q \<longleftrightarrow>
     (\<forall>r\<in>{0..<7}. \<forall>c\<in>{0..<5}. glyph_bit rows r c \<longrightarrow>
        pixel4 (quadrant q ((ox + c) div 8) ((oy + r) div 8)) ((ox + c) mod 8) ((oy + r) mod 8)
          = palLetter
        \<and> (\<forall>tileCol\<in>{0..<2}. \<forall>tileRow\<in>{0..<2}.
              (tileCol, tileRow) \<noteq> ((ox + c) div 8, (oy + r) div 8) \<longrightarrow>
              pixel4 (quadrant q tileCol tileRow) ((ox + c) mod 8) ((oy + r) mod 8) = 0))
   \<and> (\<forall>tileCol\<in>{0..<2}. \<forall>tileRow\<in>{0..<2}. \<forall>px\<in>{0..<8}. \<forall>py\<in>{0..<8}.
        pixel4 (quadrant q tileCol tileRow) px py \<noteq> 0 \<longrightarrow>
        (\<exists>r\<in>{0..<7}. \<exists>c\<in>{0..<5}. glyph_bit rows r c
            \<and> (ox + c) div 8 = tileCol \<and> (oy + r) div 8 = tileRow
            \<and> (ox + c) mod 8 = px \<and> (oy + r) mod 8 = py))"

text \<open>
  The image of the glyph with its top-left corner at pixel (5, 4) of the 16x16 cell:
  the pixel at \<open>(px, py)\<close> of the tile in column \<open>tileCol\<close> and row \<open>tileRow\<close>.
\<close>

definition ref_pixel :: "uint8 list \<Rightarrow> nat \<Rightarrow> nat \<Rightarrow> nat \<Rightarrow> nat \<Rightarrow> uint8" where
  "ref_pixel rows tileCol tileRow px py =
     (let X = tileCol * 8 + px; Y = tileRow * 8 + py
      in if 5 \<le> X \<and> X < 10 \<and> 4 \<le> Y \<and> Y < 11 then fg rows (Y - 4) (X - 5) else 0)"

text \<open>
  The byte address of the tilemap cell \<open>(cx, cy)\<close> of a screen block: VRAM halfword
  index \<open>screenBlock * 1024 + cy * 32 + cx\<close>.
\<close>

definition cell_addr :: "nat \<Rightarrow> nat \<Rightarrow> nat \<Rightarrow> nat" where
  "cell_addr screenBlock cx cy = 0x06000000 + 2 * (screenBlock * 1024 + cy * 32 + cx)"

text \<open>
  What \<open>SetScroll\<close> leaves behind: two stores, to the horizontal and then the vertical
  scroll register, of the values reduced modulo 512.
\<close>

definition scroll_stored :: "ioreg \<Rightarrow> ioreg \<Rightarrow> uint16 \<Rightarrow> uint16 \<Rightarrow> machine \<Rightarrow> machine \<Rightarrow> bool" where
  "scroll_stored hofs vofs x y s s' \<longleftrightarrow>
     (\<exists>h v. trace s' = trace s @ [RegStore hofs h, RegStore vofs v]
          \<and> ioregs s' hofs = h \<and> ioregs s' vofs = v
          \<and> unat h = unat x mod 512 \<and> unat v = unat y mod 512)"

section \<open>Stores and addresses\<close>

lemma halfword_bytes:
  "ucast (ucast v :: uint8) OR push_bit 8 (ucast (ucast (drop_bit 8 v) :: uint8)) = (v :: uint16)"
  by (rule bit_word_eqI) (auto simp add: bit_simps)

lemma read16_mem16_Set: "read16 (mem16_Set a v s) a = v"
  by (simp add: read16_def mem16_Set_def halfword_bytes)

lemma trace_mem16_Set: "trace (mem16_Set a v s) = trace s @ [MemStore a v]"
  by (simp add: mem16_Set_def)

lemma ioregs_mem16_Set: "ioregs (mem16_Set a v s) = ioregs s"
  by (simp add: mem16_Set_def)

lemma memory_mem16_Set_other:
  "b \<noteq> a \<Longrightarrow> b \<noteq> a + 1 \<Longrightarrow> memory (mem16_Set a v s) b = memory s b"
  by (simp add: mem16_Set_def)

lemma reg_Set_simps:
  "trace (reg_Set r v s) = trace s @ [RegStore r v]"
  "ioregs (reg_Set r v s) = (ioregs s)(r := v)"
  "memory (reg_Set r v s) = memory s"
  by (simp_all add: reg_Set_def)

lemma unat_lt_256: "unat (w :: uint8) < 256"
  using unsigned_less[of w, where 'a=nat] by simp

lemma tile_addr_of_nat:
  "tile_addr sb x y = of_nat (0x06000000 + 2 * (unat sb * 1024 + unat y * 32 + unat x))"
  by (simp add: tile_addr_def memVRAM_def algebra_simps)

lemma unat_tile_addr:
  "unat (tile_addr sb x y) = 0x06000000 + 2 * (unat sb * 1024 + unat y * 32 + unat x)"
proof -
  have "0x06000000 + 2 * (unat sb * 1024 + unat y * 32 + unat x) < (2::nat) ^ 32"
    using unat_lt_256[of sb] unat_lt_256[of x] unat_lt_256[of y] by simp
  then show ?thesis
    unfolding tile_addr_of_nat
    by (simp add: unat_of_nat take_bit_nat_eq_self del: of_nat_add of_nat_mult)
qed

lemma pal_addr:
  "unat (memPAL + ucast (palette::uint8) * 32 + ucast (index::uint8) * 2 :: uintptr)
     = 0x05000000 + 2 * (unat palette * 16 + unat index)"
proof -
  have eq: "(memPAL + ucast palette * 32 + ucast index * 2 :: uintptr)
      = of_nat (0x05000000 + 2 * (unat palette * 16 + unat index))"
    by (simp add: memPAL_def algebra_simps)
  have "0x05000000 + 2 * (unat palette * 16 + unat index) < (2::nat) ^ 32"
    using unat_lt_256[of palette] unat_lt_256[of index] by simp
  then show ?thesis
    unfolding eq by (simp add: unat_of_nat take_bit_nat_eq_self del: of_nat_add of_nat_mult)
qed

section \<open>Bit fields\<close>

lemma bit_bounded: "(w :: 'a::len word) < 2 ^ k \<Longrightarrow> bit w n \<Longrightarrow> n < k"
proof -
  assume a: "w < 2 ^ k" and b: "bit w n"
  have "take_bit k w = w"
    using a by (rule less_mask_eq[unfolded take_bit_eq_mask[symmetric]])
  then have "bit (take_bit k w) n" using b by simp
  then show ?thesis by (simp add: bit_take_bit_iff)
qed

lemma bit_1024: "bit (1024::int) n \<longleftrightarrow> n = 10"
proof -
  have e: "(1024::int) = 2 ^ 10" by simp
  show ?thesis unfolding e bit_exp_iff by auto
qed

lemma bit_2048: "bit (2048::int) n \<longleftrightarrow> n = 11"
proof -
  have e: "(2048::int) = 2 ^ 11" by simp
  show ?thesis unfolding e bit_exp_iff by auto
qed

lemma tileIndex_bits: "(t::uint16) < 1024 \<Longrightarrow> bit t n \<Longrightarrow> n < 10"
  using bit_bounded[of t 10 n] by simp

lemma palette_bits: "(p::uint8) < 16 \<Longrightarrow> bit p n \<Longrightarrow> n < 4"
  using bit_bounded[of p 4 n] by simp

lemma component_bits: "(r::uint8) \<le> 31 \<Longrightarrow> bit r n \<Longrightarrow> n < 5"
  using bit_bounded[of r 5 n] by (simp add: word_le_nat_alt word_less_nat_alt)

lemma entry_index: "t < 1024 \<Longrightarrow> take_bit 10 (tile_entry t p fh fv) = t"
  unfolding tile_entry_def Let_def
  by (rule bit_word_eqI)
     (auto simp add: bit_simps bit_1024 bit_2048 dest: tileIndex_bits bit_imp_le_length)

lemma entry_flipH: "t < 1024 \<Longrightarrow> bit (tile_entry t p fh fv) 10 = fh"
  unfolding tile_entry_def Let_def
  by (auto simp add: bit_simps bit_1024 bit_2048 dest: tileIndex_bits)

lemma entry_flipV: "t < 1024 \<Longrightarrow> bit (tile_entry t p fh fv) 11 = fv"
  unfolding tile_entry_def Let_def
  by (auto simp add: bit_simps bit_1024 bit_2048 dest: tileIndex_bits)

lemma entry_palette: "t < 1024 \<Longrightarrow> p < 16 \<Longrightarrow> drop_bit 12 (tile_entry t p fh fv) = ucast p"
  unfolding tile_entry_def Let_def
  by (rule bit_word_eqI)
     (auto simp add: bit_simps bit_1024 bit_2048
        dest: tileIndex_bits palette_bits bit_imp_le_length)

lemma RGB_red: "r \<le> 31 \<Longrightarrow> take_bit 5 (RGB r g b) = ucast r"
  unfolding RGB_def
  by (rule bit_word_eqI) (auto simp add: bit_simps dest: bit_imp_le_length component_bits)

lemma RGB_green: "r \<le> 31 \<Longrightarrow> g \<le> 31 \<Longrightarrow> take_bit 5 (drop_bit 5 (RGB r g b)) = ucast g"
  unfolding RGB_def
  by (rule bit_word_eqI) (auto simp add: bit_simps dest: bit_imp_le_length component_bits)

lemma RGB_blue:
  "r \<le> 31 \<Longrightarrow> g \<le> 31 \<Longrightarrow> b \<le> 31 \<Longrightarrow> take_bit 5 (drop_bit 10 (RGB r g b)) = ucast b"
  unfolding RGB_def
  by (rule bit_word_eqI) (auto simp add: bit_simps dest: bit_imp_le_length component_bits)

lemma RGB_bit15: "r \<le> 31 \<Longrightarrow> g \<le> 31 \<Longrightarrow> b \<le> 31 \<Longrightarrow> \<not> bit (RGB r g b) 15"
  unfolding RGB_def
  by (auto simp add: bit_simps dest: bit_imp_le_length component_bits)

lemma unat_mask9: "unat ((x::uint16) AND 0x1FF) = unat x mod 512"
proof -
  have "x AND 0x1FF = take_bit 9 x" by (simp add: take_bit_eq_mask mask_eq_exp_minus_1)
  then show ?thesis by (simp add: unsigned_take_bit_eq take_bit_eq_mod unat_mod)
qed

section \<open>Tilemap entries\<close>

text \<open>
  C6. For a tile index below 1024 and a palette below 16 (and any screen block and
  coordinates, in particular those below 32), \<open>SetTile\<close> performs exactly one 16-bit
  store, at the byte address \<open>0x06000000 + 2 * (screenBlock * 1024 + y * 32 + x)\<close>, that
  is at VRAM halfword index \<open>screenBlock * 1024 + y * 32 + x\<close>. Bits 0-9 of the stored
  value are the tile index, bit 10 is \<open>flipH\<close>, bit 11 is \<open>flipV\<close> and bits 12-15 are the
  palette; the value is read back from that address.
\<close>

theorem SetTile_entry_layout:
  assumes "tileIndex < 1024" and "palette < 16"
  shows "\<exists>a e. trace (SetTile screenBlock x y tileIndex palette flipH flipV s) = trace s @ [MemStore a e]
           \<and> unat a = 0x06000000 + 2 * (unat screenBlock * 1024 + unat y * 32 + unat x)
           \<and> read16 (SetTile screenBlock x y tileIndex palette flipH flipV s) a = e
           \<and> take_bit 10 e = tileIndex \<and> bit e 10 = flipH \<and> bit e 11 = flipV
           \<and> drop_bit 12 e = ucast palette"
proof (intro exI[of _ "tile_addr screenBlock x y"]
             exI[of _ "tile_entry tileIndex palette flipH flipV"] conjI)
  show "trace (SetTile screenBlock x y tileIndex palette flipH flipV s)
      = trace s @ [MemStore (tile_addr screenBlock x y) (tile_entry tileIndex palette flipH flipV)]"
    by (simp add: SetTile_def trace_mem16_Set)
  show "unat (tile_addr screenBlock x y)
      = 0x06000000 + 2 * (unat screenBlock * 1024 + unat y * 32 + unat x)"
    by (rule unat_tile_addr)
  show "read16 (SetTile screenBlock x y tileIndex palette flipH flipV s) (tile_addr screenBlock x y)
      = tile_entry tileIndex palette flipH flipV"
    by (simp add: SetTile_def read16_mem16_Set)
qed (use assms in \<open>simp_all add: entry_index entry_flipH entry_flipV entry_palette\<close>)

theorem SetTile_entry_layout_witness:
  "(10::uint16) < 1024 \<and> (0::uint8) < 16 \<and>
   (\<exists>a e. trace (SetTile 9 5 13 10 0 False False machine0) = trace machine0 @ [MemStore a e]
           \<and> unat a = 0x06000000 + 2 * (unat (9::uint8) * 1024 + unat (13::uint8) * 32 + unat (5::uint8))
           \<and> read16 (SetTile 9 5 13 10 0 False False machine0) a = e
           \<and> take_bit 10 e = 10 \<and> bit e 10 = False \<and> bit e 11 = False
           \<and> drop_bit 12 e = ucast (0::uint8))"
proof -
  have h1: "(10::uint16) < 1024" by simp
  have h2: "(0::uint8) < 16" by simp
  show ?thesis
    using h1 h2 SetTile_entry_layout [OF h1 h2, of 9 5 13 False False machine0] by blast
qed






section \<open>Palette colours\<close>

text \<open>
  C9. For components \<open>r, g, b \<le> 31\<close>, bits 0-4 of \<open>RGB r g b\<close> are \<open>r\<close>, bits 5-9 are
  \<open>g\<close>, bits 10-14 are \<open>b\<close> and bit 15 is 0. \<open>SetPaletteColor\<close> performs one store of the
  colour word at byte address \<open>0x05000000 + 2 * (palette * 16 + index)\<close>, that is at
  palette-RAM halfword index \<open>palette * 16 + index\<close>, where it is read back.
\<close>

theorem RGB_SetPaletteColor_layout:
  assumes "r \<le> 31" and "g \<le> 31" and "b \<le> 31"
  shows "take_bit 5 (RGB r g b) = ucast r
       \<and> take_bit 5 (drop_bit 5 (RGB r g b)) = ucast g
       \<and> take_bit 5 (drop_bit 10 (RGB r g b)) = ucast b
       \<and> \<not> bit (RGB r g b) 15
       \<and> (\<exists>a. trace (SetPaletteColor palette index (RGB r g b) s)
                 = trace s @ [MemStore a (RGB r g b)]
              \<and> unat a = 0x05000000 + 2 * (unat palette * 16 + unat index)
              \<and> read16 (SetPaletteColor palette index (RGB r g b) s) a = RGB r g b)"
proof (intro conjI)
  show "\<exists>a. trace (SetPaletteColor palette index (RGB r g b) s)
               = trace s @ [MemStore a (RGB r g b)]
            \<and> unat a = 0x05000000 + 2 * (unat palette * 16 + unat index)
            \<and> read16 (SetPaletteColor palette index (RGB r g b) s) a = RGB r g b"
    by (rule exI[of _ "memPAL + ucast palette * 32 + ucast index * 2"])
       (simp add: SetPaletteColor_def trace_mem16_Set read16_mem16_Set pal_addr)
qed (use assms in \<open>simp_all add: RGB_red RGB_green RGB_blue RGB_bit15\<close>)

theorem RGB_SetPaletteColor_layout_witness:
  "(14::uint8) \<le> 31 \<and> (8::uint8) \<le> 31 \<and> (20::uint8) \<le> 31
       \<and> take_bit 5 (RGB 14 8 20) = ucast (14::uint8)
       \<and> take_bit 5 (drop_bit 5 (RGB 14 8 20)) = ucast (8::uint8)
       \<and> take_bit 5 (drop_bit 10 (RGB 14 8 20)) = ucast (20::uint8)
       \<and> \<not> bit (RGB 14 8 20) 15
       \<and> (\<exists>a. trace (SetPaletteColor 0 2 (RGB 14 8 20) machine0)
                 = trace machine0 @ [MemStore a (RGB 14 8 20)]
              \<and> unat a = 0x05000000 + 2 * (unat (0::uint8) * 16 + unat (2::uint8))
              \<and> read16 (SetPaletteColor 0 2 (RGB 14 8 20) machine0) a = RGB 14 8 20)"
proof -
  have h1: "(14::uint8) \<le> 31" and h2: "(8::uint8) \<le> 31" and h3: "(20::uint8) \<le> 31"
    by simp_all
  show ?thesis
    using h1 h2 h3 RGB_SetPaletteColor_layout [OF h1 h2 h3, of 0 2 machine0] by blast
qed

section \<open>Scrolling\<close>

lemma scroll_storedI:
  "hofs \<noteq> vofs \<Longrightarrow>
   scroll_stored hofs vofs x y s (reg_Set vofs (y AND 0x1FF) (reg_Set hofs (x AND 0x1FF) s))"
  unfolding scroll_stored_def
  by (intro exI[of _ "x AND 0x1FF"] exI[of _ "y AND 0x1FF"]) (simp add: reg_Set_simps unat_mask9)

text \<open>
  C8. For each of the four layers and all 16-bit \<open>x\<close> and \<open>y\<close>, \<open>SetScroll\<close> stores
  \<open>x mod 512\<close> in the layer's horizontal scroll register and \<open>y mod 512\<close> in its vertical
  scroll register, and performs no other store.
\<close>

theorem SetScroll_mod_512:
  "scroll_stored BG0_HOFS BG0_VOFS x y s (SetScroll Layer0 x y s)
 \<and> scroll_stored BG1_HOFS BG1_VOFS x y s (SetScroll Layer1 x y s)
 \<and> scroll_stored BG2_HOFS BG2_VOFS x y s (SetScroll Layer2 x y s)
 \<and> scroll_stored BG3_HOFS BG3_VOFS x y s (SetScroll Layer3 x y s)"
  by (simp add: SetScroll_def Layer0_def Layer1_def Layer2_def Layer3_def scroll_storedI)

section \<open>Enabling layers\<close>

lemma fold_layer_bits:
  "bit (fold (\<lambda>l bits. bits OR push_bit (8 + unat l) (1::uint16)) layers acc) n
     \<longleftrightarrow> bit acc n \<or> (\<exists>l\<in>set layers. n = 8 + unat l \<and> n < 16)"
  by (induction layers arbitrary: acc) (auto simp add: bit_simps)

lemma layer_unat: "l \<in> {Layer0, Layer1, Layer2, Layer3} \<Longrightarrow> unat l < 4"
  by (auto simp add: Layer0_def Layer1_def Layer2_def Layer3_def)

text \<open>
  C7. For a list of layers drawn from \<open>Layer0\<close> to \<open>Layer3\<close>, \<open>ConfigureLayers\<close>
  performs exactly one store, to DISPCNT. Bit \<open>8 + l\<close> of the stored value is set
  exactly when layer \<open>l\<close> occurs in the list, every bit other than 8 to 11 is clear,
  and the mode bits 0-2 are 000.
\<close>

theorem ConfigureLayers_enables:
  assumes "set layers \<subseteq> {Layer0, Layer1, Layer2, Layer3}"
  shows "\<exists>v. trace (ConfigureLayers layers s) = trace s @ [RegStore DISPCNT v]
           \<and> ioregs (ConfigureLayers layers s) DISPCNT = v
           \<and> (\<forall>l\<in>{Layer0, Layer1, Layer2, Layer3}. bit v (8 + unat l) \<longleftrightarrow> l \<in> set layers)
           \<and> (\<forall>n. n \<notin> {8, 9, 10, 11} \<longrightarrow> \<not> bit v n)
           \<and> take_bit 3 v = 0"
proof -
  define v where "v = fold (\<lambda>l bits. bits OR push_bit (8 + unat l) (1::uint16)) layers 0"
  have bits: "bit v n \<longleftrightarrow> (\<exists>l\<in>set layers. n = 8 + unat l)" for n
  proof -
    have "l \<in> set layers \<Longrightarrow> 8 + unat l < 16" for l
      using assms layer_unat[of l] by auto
    then show ?thesis unfolding v_def fold_layer_bits by auto
  qed
  have a: "\<forall>l\<in>{Layer0, Layer1, Layer2, Layer3}. bit v (8 + unat l) \<longleftrightarrow> l \<in> set layers"
    by (auto simp add: bits word_unat_eq_iff[symmetric])
  have b: "\<forall>n. n \<notin> {8, 9, 10, 11} \<longrightarrow> \<not> bit v n"
  proof (intro allI impI notI)
    fix n assume n: "n \<notin> {8, 9, 10, 11::nat}" and "bit v n"
    then obtain l where l: "l \<in> set layers" "n = 8 + unat l" using bits by blast
    then have "unat l < 4" using assms layer_unat by blast
    then show False using n l by auto
  qed
  have c: "take_bit 3 v = 0"
    by (rule bit_word_eqI) (auto simp add: bit_simps bits)
  have d: "ConfigureLayers layers s = reg_Set DISPCNT v s"
    by (simp only: ConfigureLayers_def v_def)
  show ?thesis
  proof (intro exI[of _ v] conjI)
    show "trace (ConfigureLayers layers s) = trace s @ [RegStore DISPCNT v]"
      by (simp add: d reg_Set_simps)
    show "ioregs (ConfigureLayers layers s) DISPCNT = v"
      by (simp add: d reg_Set_simps)
  qed (rule a b c)+
qed

theorem ConfigureLayers_enables_witness:
  "set [Layer0, Layer1] \<subseteq> {Layer0, Layer1, Layer2, Layer3}
   \<and> (\<exists>v. trace (ConfigureLayers [Layer0, Layer1] machine0) = trace machine0 @ [RegStore DISPCNT v]
           \<and> ioregs (ConfigureLayers [Layer0, Layer1] machine0) DISPCNT = v
           \<and> (\<forall>l\<in>{Layer0, Layer1, Layer2, Layer3}. bit v (8 + unat l) \<longleftrightarrow> l \<in> set [Layer0, Layer1])
           \<and> (\<forall>n. n \<notin> {8, 9, 10, 11} \<longrightarrow> \<not> bit v n)
           \<and> take_bit 3 v = 0)"
proof -
  have h: "set [Layer0, Layer1] \<subseteq> {Layer0, Layer1, Layer2, Layer3}" by simp
  show ?thesis using h ConfigureLayers_enables [OF h, of machine0] by blast
qed

section \<open>Tile images\<close>

lemma tile_halfword_lo: "(ucast (tile_halfword pixels i) :: uint8) = pixels ! (i * 2)"
  unfolding tile_halfword_def
  by (rule bit_word_eqI) (auto simp add: bit_simps dest: bit_imp_le_length)

lemma tile_halfword_hi: "(ucast (drop_bit 8 (tile_halfword pixels i)) :: uint8) = pixels ! (i * 2 + 1)"
  unfolding tile_halfword_def
  by (rule bit_word_eqI) (auto simp add: bit_simps dest: bit_imp_le_length)

lemma of_nat_uintptr_eq:
  "j < 2 ^ 32 \<Longrightarrow> k < 2 ^ 32 \<Longrightarrow> (of_nat j :: uintptr) = of_nat k \<longleftrightarrow> j = k"
  by (simp add: word_of_nat_eq_iff take_bit_nat_eq_self)

lemma unat_lt_65536: "unat (w :: uint16) < 65536"
  using unsigned_less[of w, where 'a=nat] by simp

lemma tile_base_addr:
  "k \<le> 64 \<Longrightarrow> unat (memVRAM + ucast (charBlock::uint8) * 16384 + ucast (tileIndex::uint16) * of_nat k :: uintptr)
     = 0x06000000 + unat charBlock * 16384 + unat tileIndex * k"
proof -
  assume k: "k \<le> 64"
  have eq: "(memVRAM + ucast charBlock * 16384 + ucast tileIndex * of_nat k :: uintptr)
      = of_nat (0x06000000 + unat charBlock * 16384 + unat tileIndex * k)"
    by (simp add: memVRAM_def)
  have "unat tileIndex * k \<le> 65535 * 64"
    using unat_lt_65536[of tileIndex] k by (intro mult_mono) auto
  then have "0x06000000 + unat charBlock * 16384 + unat tileIndex * k < (2::nat) ^ 32"
    using unat_lt_256[of charBlock] by simp
  then show ?thesis
    unfolding eq by (simp add: unat_of_nat take_bit_nat_eq_self del: of_nat_add of_nat_mult)
qed

lemma fold_store_memory:
  "n \<le> 32 \<Longrightarrow> j < 2 * n \<Longrightarrow>
   memory (fold (\<lambda>i. mem16_Set (base + of_nat i * 2) (tile_halfword pixels i)) [0..<n] s)
     (base + of_nat j) = pixels ! j"
proof (induction n arbitrary: j)
  case 0
  then show ?case by simp
next
  case (Suc n)
  let ?s = "fold (\<lambda>i. mem16_Set (base + of_nat i * 2) (tile_halfword pixels i)) [0..<n] s"
  have a: "(of_nat n * 2 :: uintptr) = of_nat (2 * n)" by simp
  have b: "(of_nat n * 2 + 1 :: uintptr) = of_nat (2 * n + 1)" by simp
  consider "j = 2 * n" | "j = 2 * n + 1" | "j < 2 * n" using Suc.prems by (auto simp add: less_Suc_eq)
  then show ?case
  proof cases
    case 1
    then show ?thesis
      by (simp add: mem16_Set_def tile_halfword_lo mult.commute)
  next
    case 2
    then show ?thesis
      by (simp add: mem16_Set_def tile_halfword_hi mult.commute add.assoc)
  next
    case 3
    have "(of_nat j :: uintptr) \<noteq> of_nat n * 2"
      unfolding a using 3 Suc.prems by (subst of_nat_uintptr_eq) auto
    then have ne1: "base + of_nat j \<noteq> base + of_nat n * 2" by simp
    have "(of_nat j :: uintptr) \<noteq> of_nat n * 2 + 1"
      unfolding b using 3 Suc.prems by (subst of_nat_uintptr_eq) auto
    then have ne2: "base + of_nat j \<noteq> base + of_nat n * 2 + 1" by (simp add: add.assoc)
    have "memory (mem16_Set (base + of_nat n * 2) (tile_halfword pixels n) ?s) (base + of_nat j)
        = memory ?s (base + of_nat j)"
      using ne1 ne2 by (rule memory_mem16_Set_other)
    then show ?thesis using Suc.IH[of j] 3 Suc.prems by simp
  qed
qed


lemma fold_store_trace:
  "trace (fold (\<lambda>i. mem16_Set (base + of_nat i * 2) (tile_halfword pixels i)) [0..<n] s)
     = trace s @ map (\<lambda>i. MemStore (base + of_nat i * 2) (tile_halfword pixels i)) [0..<n]"
  by (induction n) (simp_all add: trace_mem16_Set)

lemma fold_store_read_bytes:
  assumes "n \<le> 32" and "length pixels = 2 * n"
  shows "read_bytes (fold (\<lambda>i. mem16_Set (base + of_nat i * 2) (tile_halfword pixels i)) [0..<n] s)
           base (2 * n) = pixels"
  unfolding read_bytes_def
  by (rule nth_equalityI) (use assms in \<open>simp_all add: fold_store_memory\<close>)

text \<open>
  C5. For every character block and tile index (so in particular character blocks 0-3
  and tile indices 0-511) and every 32-byte buffer, after \<open>DefineTile4bpp\<close> byte \<open>i\<close>
  of tile-image memory at byte offset \<open>charBlock * 16384 + tileIndex * 32\<close> from the
  start of VRAM equals \<open>pixels[i]\<close>, so reading the 32 bytes back gives the buffer; 16
  halfword stores are performed. Likewise \<open>DefineTile8bpp\<close> with a 64-byte buffer at
  offset \<open>charBlock * 16384 + tileIndex * 64\<close>, in 32 stores.
\<close>

theorem DefineTile_roundtrip:
  assumes "length pixels = 32" and "length pixels' = 64"
  shows "(\<exists>base. unat base = 0x06000000 + unat charBlock * 16384 + unat tileIndex * 32
            \<and> (\<forall>i<32. memory (DefineTile4bpp charBlock tileIndex pixels s) (base + of_nat i)
                         = pixels ! i)
            \<and> read_bytes (DefineTile4bpp charBlock tileIndex pixels s) base 32 = pixels
            \<and> length (trace (DefineTile4bpp charBlock tileIndex pixels s)) = length (trace s) + 16)
       \<and> (\<exists>base. unat base = 0x06000000 + unat charBlock * 16384 + unat tileIndex * 64
            \<and> (\<forall>i<64. memory (DefineTile8bpp charBlock tileIndex pixels' s) (base + of_nat i)
                         = pixels' ! i)
            \<and> read_bytes (DefineTile8bpp charBlock tileIndex pixels' s) base 64 = pixels'
            \<and> length (trace (DefineTile8bpp charBlock tileIndex pixels' s)) = length (trace s) + 32)"
proof (intro conjI)
  let ?b4 = "memVRAM + ucast charBlock * 16384 + ucast tileIndex * 32 :: uintptr"
  let ?b8 = "memVRAM + ucast charBlock * 16384 + ucast tileIndex * 64 :: uintptr"
  have a4: "unat ?b4 = 0x06000000 + unat charBlock * 16384 + unat tileIndex * 32"
    using tile_base_addr[of 32 charBlock tileIndex] by simp
  have a8: "unat ?b8 = 0x06000000 + unat charBlock * 16384 + unat tileIndex * 64"
    using tile_base_addr[of 64 charBlock tileIndex] by simp
  show "\<exists>base. unat base = 0x06000000 + unat charBlock * 16384 + unat tileIndex * 32
            \<and> (\<forall>i<32. memory (DefineTile4bpp charBlock tileIndex pixels s) (base + of_nat i)
                         = pixels ! i)
            \<and> read_bytes (DefineTile4bpp charBlock tileIndex pixels s) base 32 = pixels
            \<and> length (trace (DefineTile4bpp charBlock tileIndex pixels s)) = length (trace s) + 16"
    using a4 assms(1) fold_store_read_bytes[of 16 pixels ?b4 s]
    by (intro exI[of _ ?b4]) (simp add: DefineTile4bpp_def Let_def fold_store_memory fold_store_trace)
  show "\<exists>base. unat base = 0x06000000 + unat charBlock * 16384 + unat tileIndex * 64
            \<and> (\<forall>i<64. memory (DefineTile8bpp charBlock tileIndex pixels' s) (base + of_nat i)
                         = pixels' ! i)
            \<and> read_bytes (DefineTile8bpp charBlock tileIndex pixels' s) base 64 = pixels'
            \<and> length (trace (DefineTile8bpp charBlock tileIndex pixels' s)) = length (trace s) + 32"
    using a8 assms(2) fold_store_read_bytes[of 32 pixels' ?b8 s]
    by (intro exI[of _ ?b8]) (simp add: DefineTile8bpp_def Let_def fold_store_memory fold_store_trace)
qed


theorem DefineTile_roundtrip_witness:
  "length (replicate 32 (0x11::uint8)) = 32 \<and> length (replicate 64 (1::uint8)) = 64
   \<and> (\<exists>base. unat base = 0x06000000 + unat (0::uint8) * 16384 + unat (1::uint16) * 32
            \<and> (\<forall>i<32. memory (DefineTile4bpp 0 1 (replicate 32 0x11) machine0) (base + of_nat i)
                         = replicate 32 0x11 ! i)
            \<and> read_bytes (DefineTile4bpp 0 1 (replicate 32 0x11) machine0) base 32 = replicate 32 0x11
            \<and> length (trace (DefineTile4bpp 0 1 (replicate 32 0x11) machine0))
                = length (trace machine0) + 16)
   \<and> (\<exists>base. unat base = 0x06000000 + unat (0::uint8) * 16384 + unat (1::uint16) * 64
            \<and> (\<forall>i<64. memory (DefineTile8bpp 0 1 (replicate 64 1) machine0) (base + of_nat i)
                         = replicate 64 1 ! i)
            \<and> read_bytes (DefineTile8bpp 0 1 (replicate 64 1) machine0) base 64 = replicate 64 1
            \<and> length (trace (DefineTile8bpp 0 1 (replicate 64 1) machine0))
                = length (trace machine0) + 32)"
proof -
  have h1: "length (replicate 32 (0x11::uint8)) = 32"
    and h2: "length (replicate 64 (1::uint8)) = 64" by simp_all
  show ?thesis
    using h1 h2 DefineTile_roundtrip [OF h1 h2, of 0 1 machine0] by blast
qed

section \<open>Filling a rectangle\<close>

lemma unat_inc: "(c::uint8) < w \<Longrightarrow> unat (c + 1) = unat c + 1"
proof -
  assume "c < w"
  then have "unat c < unat w" by (simp add: word_less_nat_alt)
  then show ?thesis using unat_lt_256[of w] by (simp add: unat_word_ariths)
qed

lemma fill_cols_fold:
  "fill_cols screenBlock x y w tileIndex palette row col s
     = fold (\<lambda>c. SetTile screenBlock (x + of_nat c) (y + row) tileIndex palette False False)
         [unat col..<unat w] s"
proof (induction screenBlock x y w tileIndex palette row col s rule: fill_cols.induct)
  case (1 screenBlock x y w tileIndex palette row col s)
  show ?case
  proof (cases "col < w")
    case True
    then have lt: "unat col < unat w" by (simp add: word_less_nat_alt)
    have up: "[unat col..<unat w] = unat col # [unat (col + 1)..<unat w]"
      using lt unat_inc[OF True] by (simp add: upt_conv_Cons)
    show ?thesis
      by (subst fill_cols.simps) (simp add: True up 1)
  next
    case False
    then have "unat w \<le> unat col" by (simp add: word_less_nat_alt)
    then show ?thesis using False by (subst fill_cols.simps) simp
  qed
qed

lemma fill_rows_fold:
  "fill_rows screenBlock x y w h tileIndex palette row s
     = fold (\<lambda>r. fold (\<lambda>c. SetTile screenBlock (x + of_nat c) (y + of_nat r) tileIndex palette False False)
                     [0..<unat w])
         [unat row..<unat h] s"
proof (induction screenBlock x y w h tileIndex palette row s rule: fill_rows.induct)
  case (1 screenBlock x y w h tileIndex palette row s)
  show ?case
  proof (cases "row < h")
    case True
    then have lt: "unat row < unat h" by (simp add: word_less_nat_alt)
    have up: "[unat row..<unat h] = unat row # [unat (row + 1)..<unat h]"
      using lt unat_inc[OF True] by (simp add: upt_conv_Cons)
    note ih = 1[OF True]
    show ?thesis
      by (subst fill_rows.simps, simp only: True if_True ih) (simp add: up fill_cols_fold)
  next
    case False
    then have "unat h \<le> unat row" by (simp add: word_less_nat_alt)
    then show ?thesis using False by (subst fill_rows.simps) simp
  qed
qed


lemma fold_store_grid:
  "fold (\<lambda>a. mem16_Set a v) (concat (map (\<lambda>r. map (f r) cs) rs)) s
     = fold (\<lambda>r. fold (\<lambda>c. mem16_Set (f r c) v) cs) rs s"
  by (induction rs arbitrary: s) (simp_all add: fold_map comp_def)

lemma FillTiled_fold:
  "FillTiled screenBlock x y w h tileIndex palette s
     = fold (\<lambda>a. mem16_Set a (tile_entry tileIndex palette False False))
         (concat (map (\<lambda>r. map (\<lambda>c. tile_addr screenBlock (x + of_nat c) (y + of_nat r)) [0..<unat w])
                      [0..<unat h])) s"
  unfolding FillTiled_def fill_rows_fold SetTile_def
    fold_store_grid[where f = "\<lambda>r c. tile_addr screenBlock (x + of_nat c) (y + of_nat r)"]
  by simp

lemma fold_store_same_trace:
  "trace (fold (\<lambda>a. mem16_Set a v) as s) = trace s @ map (\<lambda>a. MemStore a v) as"
  by (induction as arbitrary: s) (simp_all add: trace_mem16_Set)

lemma fold_store_same_ioregs: "ioregs (fold (\<lambda>a. mem16_Set a v) as s) = ioregs s"
  by (induction as arbitrary: s) (simp_all add: ioregs_mem16_Set)

lemma fold_store_same_frame:
  "b \<notin> set as \<Longrightarrow> b \<notin> (\<lambda>a. a + 1) ` set as \<Longrightarrow>
   memory (fold (\<lambda>a. mem16_Set a v) as s) b = memory s b"
  by (induction as arbitrary: s) (auto simp add: memory_mem16_Set_other)

lemma fold_store_same_read:
  "a \<in> set as \<Longrightarrow> \<forall>a\<in>set as. even a \<Longrightarrow> read16 (fold (\<lambda>a. mem16_Set a v) as s) a = v"
proof (induction as arbitrary: s)
  case Nil
  then show ?case by simp
next
  case (Cons a0 as)
  show ?case
  proof (cases "a \<in> set as")
    case True
    then show ?thesis using Cons by simp
  next
    case False
    then have a: "a = a0" using Cons.prems by simp
    have ev: "even a" "\<forall>b\<in>set as. even b" using Cons.prems a by simp_all
    have 1: "a \<notin> (\<lambda>a. a + 1) ` set as" using ev by auto 
    have 2: "a + 1 \<notin> set as" using ev by auto
    have 3: "a + 1 \<notin> (\<lambda>a. a + 1) ` set as" using False by auto
    have "read16 (fold (\<lambda>a. mem16_Set a v) as (mem16_Set a v s)) a = read16 (mem16_Set a v s) a"
      unfolding read16_def using False 1 2 3 by (simp add: fold_store_same_frame)
    then show ?thesis by (simp add: a read16_mem16_Set)
  qed
qed


lemma unat_add_of_nat: "unat (x::uint8) + c < 256 \<Longrightarrow> unat (x + of_nat c) = unat x + c"
  by (simp add: unat_word_ariths unat_of_nat take_bit_nat_eq_self)

lemma tile_addr_cell:
  "unat x + c < 256 \<Longrightarrow> unat y + r < 256 \<Longrightarrow>
   tile_addr sb (x + of_nat c) (y + of_nat r) = of_nat (cell_addr (unat sb) (unat x + c) (unat y + r))"
  unfolding tile_addr_of_nat cell_addr_def by (simp only: unat_add_of_nat)

lemma rect_addrs:
  assumes "unat x + unat w \<le> 32" and "unat y + unat h \<le> 32"
  shows "concat (map (\<lambda>r. map (\<lambda>c. tile_addr sb (x + of_nat c) (y + of_nat r)) [0..<unat w]) [0..<unat h])
       = concat (map (\<lambda>r. map (\<lambda>c. of_nat (cell_addr (unat sb) (unat x + c) (unat y + r))) [0..<unat w])
                   [0..<unat h])"
  by (intro arg_cong[where f = concat] map_cong refl tile_addr_cell) (use assms in auto)

lemma length_concat_grid: "length (concat (map (\<lambda>r. map (f r) [0..<w]) [0..<h])) = w * h"
  by (induction h) simp_all

text \<open>
  C4, amended. For an in-bounds rectangle (\<open>x + w \<le> 32\<close> and \<open>y + h \<le> 32\<close>), a tile
  index below 1024 and a palette below 16, after \<open>FillTiled\<close>: every cell \<open>(x + c, y + r)\<close>
  of the rectangle reads back an entry whose bits 0-9 are the tile index, whose flip bits
  10 and 11 are clear and whose bits 12-15 are the palette; every byte of memory outside
  the cells of the rectangle, and every register, is unchanged; the stores performed are
  exactly one halfword store per cell, row by row, \<open>w * h\<close> in all.
\<close>

theorem FillTiled_rectangle:
  assumes "unat x + unat w \<le> 32" and "unat y + unat h \<le> 32"
    and "tileIndex < 1024" and "palette < 16"
  shows "(\<forall>r<unat h. \<forall>c<unat w.
            take_bit 10 (read16 (FillTiled screenBlock x y w h tileIndex palette s)
                 (of_nat (cell_addr (unat screenBlock) (unat x + c) (unat y + r)))) = tileIndex
          \<and> \<not> bit (read16 (FillTiled screenBlock x y w h tileIndex palette s)
                 (of_nat (cell_addr (unat screenBlock) (unat x + c) (unat y + r)))) 10
          \<and> \<not> bit (read16 (FillTiled screenBlock x y w h tileIndex palette s)
                 (of_nat (cell_addr (unat screenBlock) (unat x + c) (unat y + r)))) 11
          \<and> drop_bit 12 (read16 (FillTiled screenBlock x y w h tileIndex palette s)
                 (of_nat (cell_addr (unat screenBlock) (unat x + c) (unat y + r)))) = ucast palette)
       \<and> (\<forall>b. (\<forall>r<unat h. \<forall>c<unat w.
                   b \<noteq> of_nat (cell_addr (unat screenBlock) (unat x + c) (unat y + r))
                 \<and> b \<noteq> of_nat (cell_addr (unat screenBlock) (unat x + c) (unat y + r)) + 1)
              \<longrightarrow> memory (FillTiled screenBlock x y w h tileIndex palette s) b = memory s b)
       \<and> ioregs (FillTiled screenBlock x y w h tileIndex palette s) = ioregs s
       \<and> (\<exists>e. trace (FillTiled screenBlock x y w h tileIndex palette s)
               = trace s @ concat (map (\<lambda>r. map (\<lambda>c.
                     MemStore (of_nat (cell_addr (unat screenBlock) (unat x + c) (unat y + r))) e)
                   [0..<unat w]) [0..<unat h]))
       \<and> length (trace (FillTiled screenBlock x y w h tileIndex palette s))
           = length (trace s) + unat w * unat h"
proof -
  define e where "e = tile_entry tileIndex palette False False"
  define as where "as = concat (map (\<lambda>r. map (\<lambda>c.
      (of_nat (cell_addr (unat screenBlock) (unat x + c) (unat y + r)) :: uintptr)) [0..<unat w]) [0..<unat h])"
  have F: "FillTiled screenBlock x y w h tileIndex palette s = fold (\<lambda>a. mem16_Set a e) as s"
    unfolding FillTiled_fold rect_addrs[OF assms(1,2)] e_def as_def ..
  have set_as: "set as = {of_nat (cell_addr (unat screenBlock) (unat x + c) (unat y + r)) | r c.
      r < unat h \<and> c < unat w}"
    unfolding as_def by (auto, blast)
  have ev: "\<forall>a\<in>set as. even a" unfolding set_as by (auto simp add: cell_addr_def)
  have e_fields: "take_bit 10 e = tileIndex" "\<not> bit e 10" "\<not> bit e 11" "drop_bit 12 e = ucast palette"
    unfolding e_def using assms(3,4)
    by (simp_all add: entry_index entry_flipH entry_flipV entry_palette)
  have rd: "read16 (fold (\<lambda>a. mem16_Set a e) as s)
        (of_nat (cell_addr (unat screenBlock) (unat x + c) (unat y + r))) = e"
    if "r < unat h" "c < unat w" for r c
    by (rule fold_store_same_read[OF _ ev]) (use that set_as in blast)
  have A: "\<forall>r<unat h. \<forall>c<unat w.
            take_bit 10 (read16 (FillTiled screenBlock x y w h tileIndex palette s)
                 (of_nat (cell_addr (unat screenBlock) (unat x + c) (unat y + r)))) = tileIndex
          \<and> \<not> bit (read16 (FillTiled screenBlock x y w h tileIndex palette s)
                 (of_nat (cell_addr (unat screenBlock) (unat x + c) (unat y + r)))) 10
          \<and> \<not> bit (read16 (FillTiled screenBlock x y w h tileIndex palette s)
                 (of_nat (cell_addr (unat screenBlock) (unat x + c) (unat y + r)))) 11
          \<and> drop_bit 12 (read16 (FillTiled screenBlock x y w h tileIndex palette s)
                 (of_nat (cell_addr (unat screenBlock) (unat x + c) (unat y + r)))) = ucast palette"
    unfolding F using e_fields by (simp add: rd)
  have B: "\<forall>b. (\<forall>r<unat h. \<forall>c<unat w.
                   b \<noteq> of_nat (cell_addr (unat screenBlock) (unat x + c) (unat y + r))
                 \<and> b \<noteq> of_nat (cell_addr (unat screenBlock) (unat x + c) (unat y + r)) + 1)
              \<longrightarrow> memory (FillTiled screenBlock x y w h tileIndex palette s) b = memory s b"
  proof (intro allI impI)
    fix b :: uintptr
    assume out: "\<forall>r<unat h. \<forall>c<unat w.
                   b \<noteq> of_nat (cell_addr (unat screenBlock) (unat x + c) (unat y + r))
                 \<and> b \<noteq> of_nat (cell_addr (unat screenBlock) (unat x + c) (unat y + r)) + 1"
    have "b \<notin> set as" "b \<notin> (\<lambda>a. a + 1) ` set as"
      unfolding set_as using out by auto
    then show "memory (FillTiled screenBlock x y w h tileIndex palette s) b = memory s b"
      unfolding F by (rule fold_store_same_frame)
  qed
  have C: "ioregs (FillTiled screenBlock x y w h tileIndex palette s) = ioregs s"
    unfolding F by (rule fold_store_same_ioregs)
  have T: "trace (FillTiled screenBlock x y w h tileIndex palette s)
               = trace s @ concat (map (\<lambda>r. map (\<lambda>c.
                     MemStore (of_nat (cell_addr (unat screenBlock) (unat x + c) (unat y + r))) e)
                   [0..<unat w]) [0..<unat h])"
    unfolding F fold_store_same_trace as_def by (simp add: map_concat comp_def)
  have L: "length (trace (FillTiled screenBlock x y w h tileIndex palette s))
           = length (trace s) + unat w * unat h"
    unfolding T by (simp only: length_append length_concat_grid)
  show ?thesis
    using A B C T L by blast
qed


text \<open>
  C4, as the specification states it, for every tile index and palette: filling the
  in-bounds 1x1 rectangle at (0, 0) with tile index 1024 leaves an entry whose
  horizontal-flip bit 10 is set and whose bits 0-9 are not the tile index; filling it
  with palette 16 leaves an entry whose bits 12-15 are not the palette.
\<close>

theorem FillTiled_unmasked_fields:
  "unat (0::uint8) + unat (1::uint8) \<le> 32
   \<and> bit (read16 (FillTiled 0 0 0 1 1 1024 0 machine0) (of_nat (cell_addr 0 0 0))) 10
   \<and> take_bit 10 (read16 (FillTiled 0 0 0 1 1 1024 0 machine0) (of_nat (cell_addr 0 0 0))) \<noteq> 1024
   \<and> drop_bit 12 (read16 (FillTiled 0 0 0 1 1 0 16 machine0) (of_nat (cell_addr 0 0 0)))
        \<noteq> ucast (16::uint8)"
  by (simp add: FillTiled_fold tile_addr_def tile_entry_def mem16_Set_def read16_def machine0_def
        memVRAM_def cell_addr_def)

theorem FillTiled_rectangle_witness:
  "unat (5::uint8) + unat (2::uint8) \<le> 32 \<and> unat (13::uint8) + unat (2::uint8) \<le> 32
   \<and> (1::uint16) < 1024 \<and> (0::uint8) < 16
   \<and> take_bit 10 (read16 (FillTiled 8 5 13 2 2 1 0 machine0) (of_nat (cell_addr 8 6 14))) = 1
   \<and> \<not> bit (read16 (FillTiled 8 5 13 2 2 1 0 machine0) (of_nat (cell_addr 8 6 14))) 10
   \<and> \<not> bit (read16 (FillTiled 8 5 13 2 2 1 0 machine0) (of_nat (cell_addr 8 6 14))) 11
   \<and> drop_bit 12 (read16 (FillTiled 8 5 13 2 2 1 0 machine0) (of_nat (cell_addr 8 6 14))) = 0
   \<and> ioregs (FillTiled 8 5 13 2 2 1 0 machine0) = ioregs machine0
   \<and> length (trace (FillTiled 8 5 13 2 2 1 0 machine0)) = 4"
proof -
  have h1: "unat (5::uint8) + unat (2::uint8) \<le> 32"
    and h2: "unat (13::uint8) + unat (2::uint8) \<le> 32"
    and h3: "(1::uint16) < 1024" and h4: "(0::uint8) < 16" by simp_all
  note R = FillTiled_rectangle [OF h1 h2 h3 h4, of 8 machine0]
  have cell: "take_bit 10 (read16 (FillTiled 8 5 13 2 2 1 0 machine0) (of_nat (cell_addr 8 6 14))) = 1
   \<and> \<not> bit (read16 (FillTiled 8 5 13 2 2 1 0 machine0) (of_nat (cell_addr 8 6 14))) 10
   \<and> \<not> bit (read16 (FillTiled 8 5 13 2 2 1 0 machine0) (of_nat (cell_addr 8 6 14))) 11
   \<and> drop_bit 12 (read16 (FillTiled 8 5 13 2 2 1 0 machine0) (of_nat (cell_addr 8 6 14))) = 0"
    using R [THEN conjunct1, rule_format, of 1 1] by simp
  have regs: "ioregs (FillTiled 8 5 13 2 2 1 0 machine0) = ioregs machine0"
    using R by blast
  have len: "length (trace (FillTiled 8 5 13 2 2 1 0 machine0)) = 4"
    using R [THEN conjunct2, THEN conjunct2, THEN conjunct2, THEN conjunct2]
    by (simp add: machine0_def)
  show ?thesis using h1 h2 h3 h4 cell regs len by blast
qed

section \<open>No range checks\<close>



section \<open>The glyph compositor\<close>

lemma and_1_neq_0: "((w::uint8) AND 1 \<noteq> 0) = odd w"
  by (simp add: and_one_eq mod2_eq_if)

lemma upt5: "[0..<5] = [0, 1, 2, 3, 4]" by code_simp
lemma upt7: "[0..<7] = [0, 1, 2, 3, 4, 5, 6]" by code_simp

lemma glyph_row_pixels_fg:
  "glyph_row_pixels (rows ! r) = [fg rows r 0, fg rows r 1, fg rows r 2, fg rows r 3, fg rows r 4]"
  unfolding glyph_row_pixels_def upt5 fg_def glyph_bit_def
  by (simp add: and_1_neq_0 bit_iff_odd_drop_bit)

lemma top_left_glyphQuarterTiles:
  "top_left (glyphQuarterTiles rows) =
     [0, 0, 0, 0,
      0, 0, 0, 0,
      0, 0, 0, 0,
      0, 0, 0, 0,
      0, 0, push_bit 4 (fg rows 0 0), fg rows 0 1 OR push_bit 4 (fg rows 0 2),
      0, 0, push_bit 4 (fg rows 1 0), fg rows 1 1 OR push_bit 4 (fg rows 1 2),
      0, 0, push_bit 4 (fg rows 2 0), fg rows 2 1 OR push_bit 4 (fg rows 2 2),
      0, 0, push_bit 4 (fg rows 3 0), fg rows 3 1 OR push_bit 4 (fg rows 3 2)]"
  by (simp add: glyphQuarterTiles_def upt7 glyph_row_def glyph_row_pixels_fg Let_def eval_nat_numeral)

lemma top_right_glyphQuarterTiles:
  "top_right (glyphQuarterTiles rows) =
     [0, 0, 0, 0,
      0, 0, 0, 0,
      0, 0, 0, 0,
      0, 0, 0, 0,
      fg rows 0 3 OR push_bit 4 (fg rows 0 4), 0, 0, 0,
      fg rows 1 3 OR push_bit 4 (fg rows 1 4), 0, 0, 0,
      fg rows 2 3 OR push_bit 4 (fg rows 2 4), 0, 0, 0,
      fg rows 3 3 OR push_bit 4 (fg rows 3 4), 0, 0, 0]"
  by (simp add: glyphQuarterTiles_def upt7 glyph_row_def glyph_row_pixels_fg Let_def eval_nat_numeral)

lemma bottom_left_glyphQuarterTiles:
  "bottom_left (glyphQuarterTiles rows) =
     [0, 0, push_bit 4 (fg rows 4 0), fg rows 4 1 OR push_bit 4 (fg rows 4 2),
      0, 0, push_bit 4 (fg rows 5 0), fg rows 5 1 OR push_bit 4 (fg rows 5 2),
      0, 0, push_bit 4 (fg rows 6 0), fg rows 6 1 OR push_bit 4 (fg rows 6 2),
      0, 0, 0, 0,
      0, 0, 0, 0,
      0, 0, 0, 0,
      0, 0, 0, 0,
      0, 0, 0, 0]"
  by (simp add: glyphQuarterTiles_def upt7 glyph_row_def glyph_row_pixels_fg Let_def eval_nat_numeral)

lemma bottom_right_glyphQuarterTiles:
  "bottom_right (glyphQuarterTiles rows) =
     [fg rows 4 3 OR push_bit 4 (fg rows 4 4), 0, 0, 0,
      fg rows 5 3 OR push_bit 4 (fg rows 5 4), 0, 0, 0,
      fg rows 6 3 OR push_bit 4 (fg rows 6 4), 0, 0, 0,
      0, 0, 0, 0,
      0, 0, 0, 0,
      0, 0, 0, 0,
      0, 0, 0, 0,
      0, 0, 0, 0]"
  by (simp add: glyphQuarterTiles_def upt7 glyph_row_def glyph_row_pixels_fg Let_def eval_nat_numeral)


lemma nibbles_fg:
  "lo_nibble 0 = 0" "hi_nibble 0 = 0"
  "lo_nibble (push_bit 4 (fg rows r c)) = 0"
  "hi_nibble (push_bit 4 (fg rows r c)) = fg rows r c"
  "lo_nibble (fg rows r c OR push_bit 4 (fg rows r' c')) = fg rows r c"
  "hi_nibble (fg rows r c OR push_bit 4 (fg rows r' c')) = fg rows r' c'"
  by (simp_all add: lo_nibble_def hi_nibble_def fg_def palLetter_def)

lemma lt2: "(k::nat) < 2 \<longleftrightarrow> k = 1 \<or> k = 0" by auto
lemma lt8: "(k::nat) < 8 \<longleftrightarrow> k = 7 \<or> k = 6 \<or> k = 5 \<or> k = 4 \<or> k = 3 \<or> k = 2 \<or> k = 1 \<or> k = 0" by auto

lemma pixel4_top_left:
  assumes "px < 8" and "py < 8"
  shows "pixel4 (top_left (glyphQuarterTiles rows)) px py = ref_pixel rows 0 0 px py"
  using assms unfolding lt8 top_left_glyphQuarterTiles
  by (elim disjE; simp add: pixel4_def ref_pixel_def nibbles_fg)

lemma pixel4_top_right:
  assumes "px < 8" and "py < 8"
  shows "pixel4 (top_right (glyphQuarterTiles rows)) px py = ref_pixel rows 1 0 px py"
  using assms unfolding lt8 top_right_glyphQuarterTiles
  by (elim disjE; simp add: pixel4_def ref_pixel_def nibbles_fg)

lemma pixel4_bottom_left:
  assumes "px < 8" and "py < 8"
  shows "pixel4 (bottom_left (glyphQuarterTiles rows)) px py = ref_pixel rows 0 1 px py"
  using assms unfolding lt8 bottom_left_glyphQuarterTiles
  by (elim disjE; simp add: pixel4_def ref_pixel_def nibbles_fg)

lemma pixel4_bottom_right:
  assumes "px < 8" and "py < 8"
  shows "pixel4 (bottom_right (glyphQuarterTiles rows)) px py = ref_pixel rows 1 1 px py"
  using assms unfolding lt8 bottom_right_glyphQuarterTiles
  by (elim disjE; simp add: pixel4_def ref_pixel_def nibbles_fg)

lemma pixel4_quadrant:
  assumes "tileCol < 2" and "tileRow < 2" and "px < 8" and "py < 8"
  shows "pixel4 (quadrant (glyphQuarterTiles rows) tileCol tileRow) px py
       = ref_pixel rows tileCol tileRow px py"
  using assms(1,2) unfolding lt2
  by (elim disjE; simp add: quadrant_def assms(3,4)
        pixel4_top_left pixel4_top_right pixel4_bottom_left pixel4_bottom_right)


lemma lt5: "(k::nat) < 5 \<longleftrightarrow> k = 4 \<or> k = 3 \<or> k = 2 \<or> k = 1 \<or> k = 0" by auto
lemma lt7: "(k::nat) < 7 \<longleftrightarrow> k = 6 \<or> k = 5 \<or> k = 4 \<or> k = 3 \<or> k = 2 \<or> k = 1 \<or> k = 0" by auto

lemma ref_pixel_placed:
  assumes "r < 7" and "c < 5"
  shows "ref_pixel rows ((5 + c) div 8) ((4 + r) div 8) ((5 + c) mod 8) ((4 + r) mod 8) = fg rows r c"
  using assms by (simp add: ref_pixel_def)

lemma ref_pixel_elsewhere:
  assumes "r < 7" and "c < 5" and "tileCol < 2" and "tileRow < 2"
    and "(tileCol, tileRow) \<noteq> ((5 + c) div 8, (4 + r) div 8)"
  shows "ref_pixel rows tileCol tileRow ((5 + c) mod 8) ((4 + r) mod 8) = 0"
  using assms unfolding lt2 lt5 lt7
  by (elim disjE; simp add: ref_pixel_def)

lemma ref_pixel_source:
  assumes "tileCol < 2" and "tileRow < 2" and "px < 8" and "py < 8"
    and "ref_pixel rows tileCol tileRow px py \<noteq> 0"
  shows "\<exists>r\<in>{0..<7}. \<exists>c\<in>{0..<5}. glyph_bit rows r c
            \<and> (5 + c) div 8 = tileCol \<and> (4 + r) div 8 = tileRow
            \<and> (5 + c) mod 8 = px \<and> (4 + r) mod 8 = py"
proof -
  define X where "X = tileCol * 8 + px"
  define Y where "Y = tileRow * 8 + py"
  have rng: "5 \<le> X" "X < 10" "4 \<le> Y" "Y < 11" and f: "fg rows (Y - 4) (X - 5) \<noteq> 0"
    using assms(5) unfolding ref_pixel_def Let_def X_def Y_def by (auto split: if_splits)
  have g: "glyph_bit rows (Y - 4) (X - 5)" using f by (auto simp add: fg_def split: if_splits)
  have "5 + (X - 5) = X" "4 + (Y - 4) = Y" using rng by simp_all
  moreover have "X div 8 = tileCol" "X mod 8 = px" "Y div 8 = tileRow" "Y mod 8 = py"
    using assms(3,4) by (simp_all add: X_def Y_def)
  ultimately have "glyph_bit rows (Y - 4) (X - 5)
            \<and> (5 + (X - 5)) div 8 = tileCol \<and> (4 + (Y - 4)) div 8 = tileRow
            \<and> (5 + (X - 5)) mod 8 = px \<and> (4 + (Y - 4)) mod 8 = py"
    using g by simp
  moreover have "Y - 4 \<in> {0..<7}" "X - 5 \<in> {0..<5}" using rng by auto
  ultimately show ?thesis by blast
qed

text \<open>
  C1, amended. \<open>glyphQuarterTiles\<close> takes the glyph only; the offset (5, 4) is fixed in
  its body. For every 5x7 glyph, at that offset: every set glyph pixel \<open>(r, c)\<close> shows
  with the foreground index in the quadrant \<open>((5+c) div 8, (4+r) div 8)\<close> at
  \<open>((5+c) mod 8, (4+r) mod 8)\<close>, read as a 4bpp nibble (even x low, odd x high, byte
  \<open>py * 4 + px div 2\<close>), and in no other quadrant at that position; every nibble of the
  four buffers that is not 0 is the image of a set glyph pixel.
\<close>

theorem glyphQuarterTiles_composited_5_4:
  assumes "length rows = 7"
  shows "composited_at rows 5 4 (glyphQuarterTiles rows)"
  unfolding composited_at_def
proof (intro conjI ballI impI)
  fix r c :: nat
  assume rc: "r \<in> {0..<7}" "c \<in> {0..<5}" and g: "glyph_bit rows r c"
  have b: "(5 + c) div 8 < 2" "(4 + r) div 8 < 2" "(5 + c) mod 8 < 8" "(4 + r) mod 8 < 8"
    using rc by auto
  show "pixel4 (quadrant (glyphQuarterTiles rows) ((5 + c) div 8) ((4 + r) div 8))
           ((5 + c) mod 8) ((4 + r) mod 8) = palLetter"
  proof -
    have "r < 7" "c < 5" using rc by auto
    then show ?thesis
      unfolding pixel4_quadrant[OF b] using g by (simp add: ref_pixel_placed fg_def)
  qed
next
  fix r c tileCol tileRow :: nat
  assume rc: "r \<in> {0..<7}" "c \<in> {0..<5}" and t: "tileCol \<in> {0..<2}" "tileRow \<in> {0..<2}"
    and ne: "(tileCol, tileRow) \<noteq> ((5 + c) div 8, (4 + r) div 8)"
  have b: "tileCol < 2" "tileRow < 2" "(5 + c) mod 8 < 8" "(4 + r) mod 8 < 8"
    using t by auto
  show "pixel4 (quadrant (glyphQuarterTiles rows) tileCol tileRow) ((5 + c) mod 8) ((4 + r) mod 8) = 0"
    unfolding pixel4_quadrant[OF b]
    by (rule ref_pixel_elsewhere) (use rc t ne in auto)
next
  fix tileCol tileRow px py :: nat
  assume t: "tileCol \<in> {0..<2}" "tileRow \<in> {0..<2}" "px \<in> {0..<8}" "py \<in> {0..<8}"
    and nz: "pixel4 (quadrant (glyphQuarterTiles rows) tileCol tileRow) px py \<noteq> 0"
  have b: "tileCol < 2" "tileRow < 2" "px < 8" "py < 8" using t by auto
  show "\<exists>r\<in>{0..<7}. \<exists>c\<in>{0..<5}. glyph_bit rows r c
            \<and> (5 + c) div 8 = tileCol \<and> (4 + r) div 8 = tileRow
            \<and> (5 + c) mod 8 = px \<and> (4 + r) mod 8 = py"
    using nz unfolding pixel4_quadrant[OF b] by (rule ref_pixel_source[OF b])
qed

theorem glyphQuarterTiles_composited_5_4_witness:
  "length letter_a = 7 \<and> composited_at letter_a 5 4 (glyphQuarterTiles letter_a)"
proof -
  have h: "length letter_a = 7" by (simp add: letter_a_def)
  show ?thesis using h glyphQuarterTiles_composited_5_4 [OF h] by blast
qed

text \<open>
  C1, as the specification states it, for every offset: at offset (0, 0) the set pixel
  (row 0, column 1) of the letter a must show in the top-left buffer at (1, 0); the
  buffer is 0 there, so the buffers are not the glyph composited at (0, 0).
\<close>

theorem glyphQuarterTiles_not_composited_0_0:
  "length letter_a = 7 \<and> glyph_bit letter_a 0 1
   \<and> pixel4 (quadrant (glyphQuarterTiles letter_a) ((0 + 1) div 8) ((0 + 0) div 8))
        ((0 + 1) mod 8) ((0 + 0) mod 8) = 0
   \<and> \<not> composited_at letter_a 0 0 (glyphQuarterTiles letter_a)"
proof -
  have l: "length letter_a = 7" by (simp add: letter_a_def)
  have g: "glyph_bit letter_a 0 1" by (simp add: glyph_bit_def letter_a_def)
  have p: "pixel4 (quadrant (glyphQuarterTiles letter_a) ((0 + 1) div 8) ((0 + 0) div 8))
        ((0 + 1) mod 8) ((0 + 0) mod 8) = 0"
    by (simp add: pixel4_quadrant ref_pixel_def)
  have "\<not> composited_at letter_a 0 0 (glyphQuarterTiles letter_a)"
  proof
    assume "composited_at letter_a 0 0 (glyphQuarterTiles letter_a)"
    then have "\<forall>r\<in>{0..<7}. \<forall>c\<in>{0..<5}. glyph_bit letter_a r c \<longrightarrow>
        pixel4 (quadrant (glyphQuarterTiles letter_a) ((0 + c) div 8) ((0 + r) div 8))
          ((0 + c) mod 8) ((0 + r) mod 8) = palLetter"
      unfolding composited_at_def by blast
    then have "glyph_bit letter_a 0 1 \<longrightarrow>
        pixel4 (quadrant (glyphQuarterTiles letter_a) ((0 + 1) div 8) ((0 + 0) div 8))
          ((0 + 1) mod 8) ((0 + 0) mod 8) = palLetter"
      by (elim ballE[where x = 0] ballE[where x = 1]) simp_all
    then show False using g p by (simp add: palLetter_def)
  qed
  then show ?thesis using l g p by blast
qed


lemma lt4: "(k::nat) < 4 \<longleftrightarrow> k = 3 \<or> k = 2 \<or> k = 1 \<or> k = 0" by auto

lemma top_bytes:
  assumes "r < 4"
  shows "lo_nibble (top_left (glyphQuarterTiles rows) ! ((4 + r) * 4 + 2)) = 0
       \<and> hi_nibble (top_left (glyphQuarterTiles rows) ! ((4 + r) * 4 + 2)) = fg rows r 0
       \<and> lo_nibble (top_left (glyphQuarterTiles rows) ! ((4 + r) * 4 + 3)) = fg rows r 1
       \<and> hi_nibble (top_left (glyphQuarterTiles rows) ! ((4 + r) * 4 + 3)) = fg rows r 2
       \<and> lo_nibble (top_right (glyphQuarterTiles rows) ! ((4 + r) * 4)) = fg rows r 3
       \<and> hi_nibble (top_right (glyphQuarterTiles rows) ! ((4 + r) * 4)) = fg rows r 4"
  using assms unfolding lt4 top_left_glyphQuarterTiles top_right_glyphQuarterTiles
  by (elim disjE; simp add: nibbles_fg)

lemma bottom_bytes:
  assumes "4 \<le> r" and "r < 7"
  shows "lo_nibble (bottom_left (glyphQuarterTiles rows) ! ((r - 4) * 4 + 2)) = 0
       \<and> hi_nibble (bottom_left (glyphQuarterTiles rows) ! ((r - 4) * 4 + 2)) = fg rows r 0
       \<and> lo_nibble (bottom_left (glyphQuarterTiles rows) ! ((r - 4) * 4 + 3)) = fg rows r 1
       \<and> hi_nibble (bottom_left (glyphQuarterTiles rows) ! ((r - 4) * 4 + 3)) = fg rows r 2
       \<and> lo_nibble (bottom_right (glyphQuarterTiles rows) ! ((r - 4) * 4)) = fg rows r 3
       \<and> hi_nibble (bottom_right (glyphQuarterTiles rows) ! ((r - 4) * 4)) = fg rows r 4"
proof -
  have "r = 4 \<or> r = 5 \<or> r = 6" using assms by auto
  then show ?thesis
    unfolding bottom_left_glyphQuarterTiles bottom_right_glyphQuarterTiles
    by (elim disjE; simp add: nibbles_fg)
qed

text \<open>
  C2. For every 5x7 glyph, with \<open>fg rows r c\<close> the foreground index for a set bit and 0
  for an unset one: glyph rows 0-3 are in the top buffers at tile rows 4-7 and glyph rows
  4-6 in the bottom buffers at tile rows 0-2; column 0 is the high nibble of byte
  \<open>tileRow * 4 + 2\<close> of the left buffer (whose low nibble is 0), columns 1 and 2 the low
  and high nibbles of byte \<open>tileRow * 4 + 3\<close>, columns 3 and 4 the low and high nibbles
  of byte \<open>tileRow * 4\<close> of the right buffer; these are the pixels x 5-7 of the left
  and x 0-1 of the right buffers, and every other pixel of the four buffers is 0.
\<close>

theorem glyphQuarterTiles_reference_layout:
  assumes "length rows = 7"
  shows "(\<forall>r\<in>{0..<4}.
            lo_nibble (top_left (glyphQuarterTiles rows) ! ((4 + r) * 4 + 2)) = 0
          \<and> hi_nibble (top_left (glyphQuarterTiles rows) ! ((4 + r) * 4 + 2)) = fg rows r 0
          \<and> lo_nibble (top_left (glyphQuarterTiles rows) ! ((4 + r) * 4 + 3)) = fg rows r 1
          \<and> hi_nibble (top_left (glyphQuarterTiles rows) ! ((4 + r) * 4 + 3)) = fg rows r 2
          \<and> lo_nibble (top_right (glyphQuarterTiles rows) ! ((4 + r) * 4)) = fg rows r 3
          \<and> hi_nibble (top_right (glyphQuarterTiles rows) ! ((4 + r) * 4)) = fg rows r 4)
       \<and> (\<forall>r\<in>{4..<7}.
            lo_nibble (bottom_left (glyphQuarterTiles rows) ! ((r - 4) * 4 + 2)) = 0
          \<and> hi_nibble (bottom_left (glyphQuarterTiles rows) ! ((r - 4) * 4 + 2)) = fg rows r 0
          \<and> lo_nibble (bottom_left (glyphQuarterTiles rows) ! ((r - 4) * 4 + 3)) = fg rows r 1
          \<and> hi_nibble (bottom_left (glyphQuarterTiles rows) ! ((r - 4) * 4 + 3)) = fg rows r 2
          \<and> lo_nibble (bottom_right (glyphQuarterTiles rows) ! ((r - 4) * 4)) = fg rows r 3
          \<and> hi_nibble (bottom_right (glyphQuarterTiles rows) ! ((r - 4) * 4)) = fg rows r 4)
       \<and> (\<forall>r\<in>{0..<4}. \<forall>c\<in>{0..<3}.
            pixel4 (top_left (glyphQuarterTiles rows)) (5 + c) (4 + r) = fg rows r c)
       \<and> (\<forall>r\<in>{0..<4}. \<forall>c\<in>{3..<5}.
            pixel4 (top_right (glyphQuarterTiles rows)) (c - 3) (4 + r) = fg rows r c)
       \<and> (\<forall>r\<in>{4..<7}. \<forall>c\<in>{0..<3}.
            pixel4 (bottom_left (glyphQuarterTiles rows)) (5 + c) (r - 4) = fg rows r c)
       \<and> (\<forall>r\<in>{4..<7}. \<forall>c\<in>{3..<5}.
            pixel4 (bottom_right (glyphQuarterTiles rows)) (c - 3) (r - 4) = fg rows r c)
       \<and> (\<forall>py\<in>{0..<8}. \<forall>px\<in>{0..<8}. py < 4 \<or> px < 5 \<longrightarrow>
            pixel4 (top_left (glyphQuarterTiles rows)) px py = 0)
       \<and> (\<forall>py\<in>{0..<8}. \<forall>px\<in>{0..<8}. py < 4 \<or> 2 \<le> px \<longrightarrow>
            pixel4 (top_right (glyphQuarterTiles rows)) px py = 0)
       \<and> (\<forall>py\<in>{0..<8}. \<forall>px\<in>{0..<8}. 3 \<le> py \<or> px < 5 \<longrightarrow>
            pixel4 (bottom_left (glyphQuarterTiles rows)) px py = 0)
       \<and> (\<forall>py\<in>{0..<8}. \<forall>px\<in>{0..<8}. 3 \<le> py \<or> 2 \<le> px \<longrightarrow>
            pixel4 (bottom_right (glyphQuarterTiles rows)) px py = 0)"
proof (intro conjI ballI impI)
  fix r :: nat assume "r \<in> {0..<4}"
  then have r: "r < 4" by simp
  note B = top_bytes[OF r, of rows]
  show "lo_nibble (top_left (glyphQuarterTiles rows) ! ((4 + r) * 4 + 2)) = 0" using B by blast
  show "hi_nibble (top_left (glyphQuarterTiles rows) ! ((4 + r) * 4 + 2)) = fg rows r 0" using B by blast
  show "lo_nibble (top_left (glyphQuarterTiles rows) ! ((4 + r) * 4 + 3)) = fg rows r 1" using B by blast
  show "hi_nibble (top_left (glyphQuarterTiles rows) ! ((4 + r) * 4 + 3)) = fg rows r 2" using B by blast
  show "lo_nibble (top_right (glyphQuarterTiles rows) ! ((4 + r) * 4)) = fg rows r 3" using B by blast
  show "hi_nibble (top_right (glyphQuarterTiles rows) ! ((4 + r) * 4)) = fg rows r 4" using B by blast
next
  fix r :: nat assume "r \<in> {4..<7}"
  then have r: "4 \<le> r" "r < 7" by simp_all
  note B = bottom_bytes[OF r, of rows]
  show "lo_nibble (bottom_left (glyphQuarterTiles rows) ! ((r - 4) * 4 + 2)) = 0" using B by blast
  show "hi_nibble (bottom_left (glyphQuarterTiles rows) ! ((r - 4) * 4 + 2)) = fg rows r 0" using B by blast
  show "lo_nibble (bottom_left (glyphQuarterTiles rows) ! ((r - 4) * 4 + 3)) = fg rows r 1" using B by blast
  show "hi_nibble (bottom_left (glyphQuarterTiles rows) ! ((r - 4) * 4 + 3)) = fg rows r 2" using B by blast
  show "lo_nibble (bottom_right (glyphQuarterTiles rows) ! ((r - 4) * 4)) = fg rows r 3" using B by blast
  show "hi_nibble (bottom_right (glyphQuarterTiles rows) ! ((r - 4) * 4)) = fg rows r 4" using B by blast
next
  fix r c :: nat assume "r \<in> {0..<4}" "c \<in> {0..<3}"
  then show "pixel4 (top_left (glyphQuarterTiles rows)) (5 + c) (4 + r) = fg rows r c"
    by (simp add: pixel4_top_left ref_pixel_def)
next
  fix r c :: nat assume "r \<in> {0..<4}" "c \<in> {3..<5}"
  then have "r < 4" "c = 3 \<or> c = 4" by auto
  then show "pixel4 (top_right (glyphQuarterTiles rows)) (c - 3) (4 + r) = fg rows r c"
    by (auto simp add: pixel4_top_right ref_pixel_def)
next
  fix r c :: nat assume "r \<in> {4..<7}" "c \<in> {0..<3}"
  then have "r = 4 \<or> r = 5 \<or> r = 6" "c < 3" by auto
  then show "pixel4 (bottom_left (glyphQuarterTiles rows)) (5 + c) (r - 4) = fg rows r c"
    by (auto simp add: pixel4_bottom_left ref_pixel_def)
next
  fix r c :: nat assume "r \<in> {4..<7}" "c \<in> {3..<5}"
  then have "r = 4 \<or> r = 5 \<or> r = 6" "c = 3 \<or> c = 4" by auto
  then show "pixel4 (bottom_right (glyphQuarterTiles rows)) (c - 3) (r - 4) = fg rows r c"
    by (auto simp add: pixel4_bottom_right ref_pixel_def)
next
  fix px py :: nat assume "py \<in> {0..<8}" "px \<in> {0..<8}" "py < 4 \<or> px < 5"
  then show "pixel4 (top_left (glyphQuarterTiles rows)) px py = 0"
    by (auto simp add: pixel4_top_left ref_pixel_def)
next
  fix px py :: nat assume "py \<in> {0..<8}" "px \<in> {0..<8}" "py < 4 \<or> 2 \<le> px"
  then show "pixel4 (top_right (glyphQuarterTiles rows)) px py = 0"
    by (auto simp add: pixel4_top_right ref_pixel_def)
next
  fix px py :: nat assume "py \<in> {0..<8}" "px \<in> {0..<8}" "3 \<le> py \<or> px < 5"
  then show "pixel4 (bottom_left (glyphQuarterTiles rows)) px py = 0"
    by (auto simp add: pixel4_bottom_left ref_pixel_def)
next
  fix px py :: nat assume "py \<in> {0..<8}" "px \<in> {0..<8}" "3 \<le> py \<or> 2 \<le> px"
  then show "pixel4 (bottom_right (glyphQuarterTiles rows)) px py = 0"
    by (auto simp add: pixel4_bottom_right ref_pixel_def)
qed


theorem glyphQuarterTiles_reference_layout_witness:
  "length letter_a = 7
   \<and> hi_nibble (top_left (glyphQuarterTiles letter_a) ! ((4 + 3) * 4 + 2)) = fg letter_a 3 0
   \<and> lo_nibble (top_right (glyphQuarterTiles letter_a) ! ((4 + 3) * 4)) = fg letter_a 3 3
   \<and> hi_nibble (bottom_left (glyphQuarterTiles letter_a) ! ((6 - 4) * 4 + 2)) = fg letter_a 6 0
   \<and> pixel4 (top_left (glyphQuarterTiles letter_a)) 0 0 = 0"
proof -
  have h: "length letter_a = 7" by (simp add: letter_a_def)
  note R = glyphQuarterTiles_reference_layout [OF h]
  have a: "hi_nibble (top_left (glyphQuarterTiles letter_a) ! ((4 + 3) * 4 + 2)) = fg letter_a 3 0
         \<and> lo_nibble (top_right (glyphQuarterTiles letter_a) ! ((4 + 3) * 4)) = fg letter_a 3 3"
    using R [THEN conjunct1, rule_format, of 3] by simp
  have b: "hi_nibble (bottom_left (glyphQuarterTiles letter_a) ! ((6 - 4) * 4 + 2)) = fg letter_a 6 0"
    using R [THEN conjunct2, THEN conjunct1, rule_format, of 6] by simp
  have c: "pixel4 (top_left (glyphQuarterTiles letter_a)) 0 0 = 0"
    using R [THEN conjunct2, THEN conjunct2, THEN conjunct2, THEN conjunct2, THEN conjunct2,
             THEN conjunct2, THEN conjunct1, rule_format, of 0 0] by simp
  show ?thesis using h a b c by blast
qed

end
